theory Spec2Isabelle
  imports Complex_Main "HOL-Library.Product_Lexorder" "HOL-Library.Word"
begin

section \<open>The SQLite-backed timeline store (class DatabaseWrapper)\<close>

text \<open>
  The store is a thin wrapper over four tables. A table is the list of its rows in
  insertion (rowid) order together with the counter SQLite keeps for an
  \<^verbatim>\<open>INTEGER PRIMARY KEY AUTOINCREMENT\<close> column. No operation of the wrapper deletes a
  row or writes an id itself, so the next id is always the counter plus one.
  Every \<^verbatim>\<open>Date.now()\<close> of the source is an explicit argument \<open>now\<close>.
  File content is a JavaScript string, a sequence of UTF-16 code units; paths
  and event types are plain identifiers and are kept as \<^typ>\<open>string\<close>.
  The column \<^verbatim>\<open>created_at\<close> of \<^verbatim>\<open>sessions\<close> is filled by a default and read by no
  operation; it is left out, as are the tables \<^verbatim>\<open>terminal_sessions\<close> and
  \<^verbatim>\<open>bookmarks\<close>, which no method of the wrapper touches.
\<close>

type_synonym js_string = "16 word list"
type_synonym bytes = "8 word list"

definition js :: "string \<Rightarrow> js_string" where
  "js s = map of_char s"

text \<open>An event's payload is a flat JavaScript object; the column \<^verbatim>\<open>data\<close> holds
  its \<^verbatim>\<open>JSON.stringify\<close> text, for which the object itself stands here.\<close>

datatype json_value = JStr string | JNum int

type_synonym json = "(string \<times> json_value) list"

record session_row =
  sess_id :: int
  sess_start_time :: int
  sess_end_time :: "int option"
  sess_project_path :: string
  sess_git_branch :: "string option"
  sess_git_commit :: "string option"

record event_row =
  ev_id :: int
  ev_session_id :: int
  ev_timestamp :: int
  ev_type :: string
  ev_source :: string
  ev_data :: json
  ev_sequence :: int

record snapshot_row =
  snap_id :: int
  snap_session_id :: int
  snap_file_path :: string
  snap_timestamp :: int
  snap_content :: js_string
  snap_content_hash :: string
  snap_size :: nat

record diff_row =
  diff_id :: int
  diff_session_id :: int
  diff_file_path :: string
  diff_timestamp :: int
  diff_data :: string
  diff_line_start :: int
  diff_line_end :: int
  diff_chars_added :: int
  diff_chars_removed :: int

text \<open>
  \<open>foreign_keys\<close> is the connection's \<^verbatim>\<open>PRAGMA foreign_keys\<close>: every child table
  declares \<^verbatim>\<open>FOREIGN KEY (session_id) REFERENCES sessions (id)\<close>, and whether the
  clause is enforced is a property of the SQLite build behind \<^verbatim>\<open>better-sqlite3\<close>.
\<close>

record database =
  sessions :: "session_row list"
  sessions_seq :: int
  events :: "event_row list"
  events_seq :: int
  file_snapshots :: "snapshot_row list"
  file_snapshots_seq :: int
  diffs :: "diff_row list"
  diffs_seq :: int
  foreign_keys :: bool

datatype db_error = ForeignKeyConstraintFailed

text \<open>What \<^verbatim>\<open>run\<close> returns: \<^verbatim>\<open>{ id: lastInsertRowid, changes }\<close>.\<close>

record run_result =
  res_id :: int
  res_changes :: nat

text \<open>
  UTF-8 as Node encodes a JavaScript string (\<^verbatim>\<open>Buffer.byteLength(s, 'utf8')\<close>,
  \<^verbatim>\<open>update(s, 'utf8')\<close>, and the binding of a string to a TEXT column): a high
  surrogate followed by a low one is one code point of four bytes, any other surrogate
  is encoded as U+FFFD, every other code unit is a code point of one to three bytes.
\<close>

definition high_surrogate :: "16 word \<Rightarrow> bool" where
  "high_surrogate u \<longleftrightarrow> 0xD800 \<le> u \<and> u \<le> 0xDBFF"

definition low_surrogate :: "16 word \<Rightarrow> bool" where
  "low_surrogate u \<longleftrightarrow> 0xDC00 \<le> u \<and> u \<le> 0xDFFF"

definition utf8_unit :: "16 word \<Rightarrow> bytes" where
  "utf8_unit u =
     (let n = unat u
      in if n < 0x80 then [of_nat n]
         else if n < 0x800 then [of_nat (0xC0 + n div 64), of_nat (0x80 + n mod 64)]
         else [of_nat (0xE0 + n div 4096), of_nat (0x80 + n div 64 mod 64),
               of_nat (0x80 + n mod 64)])"

definition utf8_pair :: "16 word \<Rightarrow> 16 word \<Rightarrow> bytes" where
  "utf8_pair hi lo =
     (let cp = 0x10000 + (unat hi - 0xD800) * 0x400 + (unat lo - 0xDC00)
      in [of_nat (0xF0 + cp div 262144), of_nat (0x80 + cp div 4096 mod 64),
          of_nat (0x80 + cp div 64 mod 64), of_nat (0x80 + cp mod 64)])"

fun utf8 :: "js_string \<Rightarrow> bytes" where
  "utf8 [] = []"
| "utf8 [u] =
     (if high_surrogate u \<or> low_surrogate u then [0xEF, 0xBF, 0xBD] else utf8_unit u)"
| "utf8 (u # v # rest) =
     (if high_surrogate u \<and> low_surrogate v then utf8_pair u v @ utf8 rest
      else if high_surrogate u \<or> low_surrogate u then [0xEF, 0xBF, 0xBD] @ utf8 (v # rest)
      else utf8_unit u @ utf8 (v # rest))"

text \<open>
  What a TEXT column gives back for a string written to it: the string decoded from
  its UTF-8, that is the string with every unpaired surrogate replaced by U+FFFD
  (\<^verbatim>\<open>String.prototype.toWellFormed\<close>).
\<close>

fun toWellFormed :: "js_string \<Rightarrow> js_string" where
  "toWellFormed [] = []"
| "toWellFormed [u] = (if high_surrogate u \<or> low_surrogate u then [0xFFFD] else [u])"
| "toWellFormed (u # v # rest) =
     (if high_surrogate u \<and> low_surrogate v then u # v # toWellFormed rest
      else if high_surrogate u \<or> low_surrogate u then 0xFFFD # toWellFormed (v # rest)
      else u # toWellFormed (v # rest))"

text \<open>The SHA-256 digest printed in hexadecimal (\<^verbatim>\<open>createHash('sha256')\<close> \<open>\<dots>\<close>
  \<^verbatim>\<open>digest('hex')\<close>) is a function of Node's library and is taken as a parameter.\<close>

record node_lib =
  sha256_hex :: "bytes \<Rightarrow> string"

text \<open>A JavaScript value handed over as content: a string, or anything else, which
  carries the string that \<^verbatim>\<open>String(content)\<close> makes of it.\<close>

datatype js_value = JSString js_string | JSOther js_string

definition init_db :: "bool \<Rightarrow> database" where
  "init_db fk = \<lparr>sessions = [], sessions_seq = 0, events = [], events_seq = 0,
     file_snapshots = [], file_snapshots_seq = 0, diffs = [], diffs_seq = 0,
     foreign_keys = fk\<rparr>"

definition fk_ok :: "database \<Rightarrow> int \<Rightarrow> bool" where
  "fk_ok db sessionId =
     (if foreign_keys db then sessionId \<in> set (map sess_id (sessions db)) else True)"

definition createSession ::
  "database \<Rightarrow> int \<Rightarrow> string \<Rightarrow> string option \<Rightarrow> string option \<Rightarrow> database \<times> int" where
  "createSession db now projectPath gitBranch gitCommit =
     (let startTime = now; rowid = sessions_seq db + 1
      in (db\<lparr>sessions := sessions db @
               [\<lparr>sess_id = rowid, sess_start_time = startTime, sess_end_time = None,
                 sess_project_path = projectPath, sess_git_branch = gitBranch,
                 sess_git_commit = gitCommit\<rparr>],
             sessions_seq := rowid\<rparr>, rowid))"

definition endSession :: "database \<Rightarrow> int \<Rightarrow> int \<Rightarrow> database" where
  "endSession db now sessionId =
     (let endTime = now
      in db\<lparr>sessions := map (\<lambda>s. if sess_id s = sessionId
                                  then s\<lparr>sess_end_time := Some endTime\<rparr> else s)
                            (sessions db)\<rparr>)"

text \<open>\<^verbatim>\<open>addEvent(sessionId, type, source, data, sequence = 0)\<close>: the argument
  \<open>sequence\<close> is \<open>None\<close> when the caller leaves it out.\<close>

definition addEvent ::
  "database \<Rightarrow> int \<Rightarrow> int \<Rightarrow> string \<Rightarrow> string \<Rightarrow> json \<Rightarrow> int option
     \<Rightarrow> db_error + database \<times> run_result" where
  "addEvent db now sessionId etype source data sequence =
     (let timestamp = now;
          sequence = (case sequence of None \<Rightarrow> 0 | Some n \<Rightarrow> n);
          rowid = events_seq db + 1
      in if fk_ok db sessionId
         then Inr (db\<lparr>events := events db @
                       [\<lparr>ev_id = rowid, ev_session_id = sessionId, ev_timestamp = timestamp,
                         ev_type = etype, ev_source = source, ev_data = data,
                         ev_sequence = sequence\<rparr>],
                     events_seq := rowid\<rparr>,
                   \<lparr>res_id = rowid, res_changes = 1\<rparr>)
         else Inl ForeignKeyConstraintFailed)"

text \<open>\<^verbatim>\<open>addFileSnapshot\<close> hashes and measures the string it is given; the row holds
  what the TEXT column gives back for it.\<close>

definition addFileSnapshot ::
  "node_lib \<Rightarrow> database \<Rightarrow> int \<Rightarrow> int \<Rightarrow> string \<Rightarrow> js_value
     \<Rightarrow> db_error + database \<times> run_result" where
  "addFileSnapshot lib db now sessionId filePath content =
     (let timestamp = now;
          cleanContent = (case content of JSString s \<Rightarrow> s | JSOther s \<Rightarrow> s);
          contentHash = sha256_hex lib (utf8 cleanContent);
          rowid = file_snapshots_seq db + 1
      in if fk_ok db sessionId
         then Inr (db\<lparr>file_snapshots := file_snapshots db @
                       [\<lparr>snap_id = rowid, snap_session_id = sessionId,
                         snap_file_path = filePath, snap_timestamp = timestamp,
                         snap_content = toWellFormed cleanContent,
                         snap_content_hash = contentHash,
                         snap_size = length (utf8 cleanContent)\<rparr>],
                     file_snapshots_seq := rowid\<rparr>,
                   \<lparr>res_id = rowid, res_changes = 1\<rparr>)
         else Inl ForeignKeyConstraintFailed)"

definition addDiff ::
  "database \<Rightarrow> int \<Rightarrow> int \<Rightarrow> string \<Rightarrow> string \<Rightarrow> int \<Rightarrow> int \<Rightarrow> int \<Rightarrow> int
     \<Rightarrow> db_error + database \<times> run_result" where
  "addDiff db now sessionId filePath diffData lineStart lineEnd charsAdded charsRemoved =
     (let timestamp = now;
          rowid = diffs_seq db + 1
      in if fk_ok db sessionId
         then Inr (db\<lparr>diffs := diffs db @
                       [\<lparr>diff_id = rowid, diff_session_id = sessionId,
                         diff_file_path = filePath, diff_timestamp = timestamp,
                         diff_data = diffData, diff_line_start = lineStart,
                         diff_line_end = lineEnd, diff_chars_added = charsAdded,
                         diff_chars_removed = charsRemoved\<rparr>],
                     diffs_seq := rowid\<rparr>,
                   \<lparr>res_id = rowid, res_changes = 1\<rparr>)
         else Inl ForeignKeyConstraintFailed)"

text \<open>
  \<^verbatim>\<open>ORDER BY\<close> is a stable sort of the rows in rowid order. SQL leaves the order of
  rows with equal keys open; stability is the choice that keeps append order, the
  one most favourable to the specification.
\<close>

definition getEventsInRange :: "database \<Rightarrow> int \<Rightarrow> int \<Rightarrow> int \<Rightarrow> event_row list" where
  "getEventsInRange db sessionId startTime endTime =
     sort_key (\<lambda>e. (ev_timestamp e, ev_sequence e))
       (filter (\<lambda>e. ev_session_id e = sessionId \<and>
                     startTime \<le> ev_timestamp e \<and> ev_timestamp e \<le> endTime)
               (events db))"

text \<open>\<^verbatim>\<open>ORDER BY key DESC LIMIT 1\<close>: a row with the greatest key, the last inserted
  among equals; none when no row qualifies.\<close>

fun latest_by :: "('a \<Rightarrow> int) \<Rightarrow> 'a list \<Rightarrow> 'a option" where
  "latest_by key [] = None"
| "latest_by key (x # xs) =
     (case latest_by key xs of
        None \<Rightarrow> Some x
      | Some y \<Rightarrow> if key y < key x then Some x else Some y)"

text \<open>\<^verbatim>\<open>applyDiffs\<close> is a stub in the source: it returns the base content.\<close>

definition applyDiffs :: "js_string \<Rightarrow> diff_row list \<Rightarrow> js_string" where
  "applyDiffs content ds = content"

record file_state =
  fs_snapshot :: snapshot_row
  fs_diffs :: "diff_row list"
  reconstructedContent :: js_string

definition getFileStateAtTime ::
  "database \<Rightarrow> int \<Rightarrow> string \<Rightarrow> int \<Rightarrow> file_state option" where
  "getFileStateAtTime db sessionId filePath timestamp =
     (case latest_by snap_timestamp
             (filter (\<lambda>s. snap_session_id s = sessionId \<and> snap_file_path s = filePath \<and>
                           snap_timestamp s \<le> timestamp)
                     (file_snapshots db)) of
        None \<Rightarrow> None
      | Some snapshot \<Rightarrow>
          (let ds = sort_key diff_timestamp
                      (filter (\<lambda>d. diff_session_id d = sessionId \<and>
                                    diff_file_path d = filePath \<and>
                                    snap_timestamp snapshot < diff_timestamp d \<and>
                                    diff_timestamp d \<le> timestamp)
                              (diffs db))
           in Some \<lparr>fs_snapshot = snapshot, fs_diffs = ds,
                     reconstructedContent = applyDiffs (snap_content snapshot) ds\<rparr>))"

subsection \<open>Histories of calls\<close>

text \<open>
  A history is the list of calls a writer has made on a fresh database. A call that
  throws leaves the database as it was (SQLite rolls the statement back), and the
  writer goes on.
\<close>

datatype call =
    CreateSession int string "string option" "string option"
  | EndSession int int
  | AddEvent int int string string json "int option"
  | AddFileSnapshot int int string js_value
  | AddDiff int int string string int int int int

fun after_call :: "node_lib \<Rightarrow> database \<Rightarrow> call \<Rightarrow> database" where
  "after_call lib db (CreateSession now projectPath gitBranch gitCommit) =
     fst (createSession db now projectPath gitBranch gitCommit)"
| "after_call lib db (EndSession now sessionId) = endSession db now sessionId"
| "after_call lib db (AddEvent now sessionId etype source data sequence) =
     (case addEvent db now sessionId etype source data sequence of
        Inl _ \<Rightarrow> db | Inr (db', _) \<Rightarrow> db')"
| "after_call lib db (AddFileSnapshot now sessionId filePath content) =
     (case addFileSnapshot lib db now sessionId filePath content of
        Inl _ \<Rightarrow> db | Inr (db', _) \<Rightarrow> db')"
| "after_call lib db (AddDiff now sessionId filePath diffData lineStart lineEnd
                        charsAdded charsRemoved) =
     (case addDiff db now sessionId filePath diffData lineStart lineEnd
             charsAdded charsRemoved of
        Inl _ \<Rightarrow> db | Inr (db', _) \<Rightarrow> db')"

definition history :: "node_lib \<Rightarrow> bool \<Rightarrow> call list \<Rightarrow> database" where
  "history lib fk calls = foldl (after_call lib) (init_db fk) calls"

text \<open>A stand-in for the digest in the concrete examples below: it is just a tag
  on the bytes.\<close>

definition example_lib :: node_lib where
  "example_lib = \<lparr>sha256_hex = (\<lambda>b. ''sha256-of-'' @ map (\<lambda>w. char_of (unat w)) b)\<rparr>"

section \<open>The recorder (class CodeTimeMachineDaemon)\<close>

text \<open>
  \<^verbatim>\<open>handleFileChange\<close> reads the file, appends a \<^verbatim>\<open>file_edit\<close> event and stores a
  snapshot of small files. \<open>file\<close> is what the file system gives: \<open>None\<close> when
  \<^verbatim>\<open>statSync\<close> or \<^verbatim>\<open>readFileSync\<close> throws, else the size on disk and the decoded
  text. \<open>ext\<close> is \<^verbatim>\<open>path.extname(filePath).toLowerCase()\<close>, \<open>relativePath\<close> the path
  below the project root. \<open>now_event\<close> and \<open>now_snapshot\<close> are the clock readings of
  the two calls on the store. Whatever is thrown inside is caught and logged, so the
  handler returns a database in every case.
\<close>

record fs_file =
  stat_size :: nat
  file_text :: js_string

definition textExtensions :: "string list" where
  "textExtensions = [''.txt'', ''.js'', ''.ts'', ''.jsx'', ''.tsx'', ''.html'', ''.css'',
     ''.json'', ''.md'', ''.yml'', ''.yaml'', ''.xml'', ''.svg'', ''.py'', ''.java'', ''.c'',
     ''.cpp'', ''.h'', ''.cs'', ''.php'', ''.rb'', ''.go'', ''.rs'', ''.sh'', ''.bat'', ''.ps1'']"

text \<open>\<^verbatim>\<open>content.split('\n').length\<close>: one more than the number of line feeds.\<close>

definition line_count :: "js_string \<Rightarrow> nat" where
  "line_count content = Suc (count_list content 0x0A)"

definition handleFileChange ::
  "node_lib \<Rightarrow> database \<Rightarrow> int \<Rightarrow> int \<Rightarrow> int \<Rightarrow> fs_file option \<Rightarrow> string \<Rightarrow> string
     \<Rightarrow> database" where
  "handleFileChange lib db now_event now_snapshot dbId file ext relativePath =
     (case file of
        None \<Rightarrow> db
      | Some f \<Rightarrow>
          if stat_size f > 100000 then db
          else if ext \<notin> set textExtensions \<and> ext \<noteq> [] then db
          else
            (let content = file_text f
             in case addEvent db now_event dbId ''file_edit'' relativePath
                       [(''action'', JStr ''change''),
                        (''size'', JNum (int (length content))),
                        (''lines'', JNum (int (line_count content)))] None of
                  Inl _ \<Rightarrow> db
                | Inr (db1, _) \<Rightarrow>
                    if length content < 100000
                    then (case addFileSnapshot lib db1 now_snapshot dbId relativePath
                                 (JSString content) of
                            Inl _ \<Rightarrow> db1
                          | Inr (db2, _) \<Rightarrow> db2)
                    else db1))"

section \<open>The JSON-file store (class FileDatabase of ctm.js)\<close>

text \<open>
  \<^verbatim>\<open>this.data.files\<close> is a plain object that maps a path to its snapshots and a
  change counter; the map below holds its own properties. A lookup
  \<^verbatim>\<open>this.data.files[filePath]\<close> that finds no own property goes on to
  \<^verbatim>\<open>Object.prototype\<close>: for the names of its members it finds a function (or the
  prototype itself), which is truthy and has no \<^verbatim>\<open>snapshots\<close>, so no entry is made
  and \<^verbatim>\<open>.snapshots.push\<close> throws a \<^verbatim>\<open>TypeError\<close> before anything is stored.
\<close>

definition Object_prototype_members :: "string list" where
  "Object_prototype_members =
     [''constructor'', ''__defineGetter__'', ''__defineSetter__'', ''hasOwnProperty'',
      ''__lookupGetter__'', ''__lookupSetter__'', ''isPrototypeOf'',
      ''propertyIsEnumerable'', ''toString'', ''valueOf'', ''__proto__'',
      ''toLocaleString'']"

datatype js_error = TypeError

record fd_snapshot =
  fds_timestamp :: int
  fds_content :: js_string
  fds_size :: nat
  fds_lines :: nat

record fd_file =
  fd_snapshots :: "fd_snapshot list"
  fd_changes :: nat

definition fd_addFileSnapshot ::
  "(string \<rightharpoonup> fd_file) \<Rightarrow> int \<Rightarrow> string \<Rightarrow> js_string
     \<Rightarrow> js_error + (string \<rightharpoonup> fd_file)" where
  "fd_addFileSnapshot files now filePath content =
     (case files filePath of
        None \<Rightarrow>
          if filePath \<in> set Object_prototype_members then Inl TypeError
          else Inr (files(filePath \<mapsto>
                 \<lparr>fd_snapshots =
                    [\<lparr>fds_timestamp = now, fds_content = take 50000 content,
                      fds_size = length content, fds_lines = line_count content\<rparr>],
                  fd_changes = 1\<rparr>))
      | Some entry \<Rightarrow>
          Inr (files(filePath \<mapsto>
                 \<lparr>fd_snapshots = fd_snapshots entry @
                    [\<lparr>fds_timestamp = now, fds_content = take 50000 content,
                      fds_size = length content, fds_lines = line_count content\<rparr>],
                  fd_changes = Suc (fd_changes entry)\<rparr>)))"

section \<open>The playback server (class PlaybackServer)\<close>

text \<open>
  One WebSocket connection. \<open>timers\<close> holds the intervals that \<^verbatim>\<open>setInterval\<close> has
  set and nobody has cleared, each with the variables its callback closes over;
  \<open>playInterval\<close> is the property \<^verbatim>\<open>ws.playInterval\<close>; \<open>sent\<close> lists what
  \<^verbatim>\<open>ws.send\<close> has sent, oldest first. Real time is not modelled: \<open>tick\<close> is one
  firing of an interval's callback. Timestamps are integers; the speed and the clock
  of a playback are rationals, computed exactly where JavaScript computes in doubles.
  The two agree where the products and sums are integers or halves, as at the speeds
  1 and 0.5 on integer times; at other speeds a double clock can differ in the last
  place, and at very small speeds it can stop advancing. No statement below relies on
  the clock's arithmetic except at speed 1 on integer times.
\<close>

datatype ws_message =
    Event_msg event_row
  | Playback_complete
  | Error_msg string

record playback =
  pb_events :: "event_row list"
  pb_endTime :: int
  pb_speed :: rat
  pb_currentTime :: rat
  pb_eventIndex :: nat

record connection =
  timers :: "nat \<rightharpoonup> playback"
  next_timer :: nat
  playInterval :: "nat option"
  sent :: "ws_message list"

definition new_connection :: connection where
  "new_connection = \<lparr>timers = Map.empty, next_timer = 0, playInterval = None, sent = []\<rparr>"

text \<open>\<^verbatim>\<open>handlePlay(ws, startTime, speed = 1)\<close>; \<open>speed\<close> is \<open>None\<close> when the message
  carries none.\<close>

definition handlePlay ::
  "database \<Rightarrow> int \<Rightarrow> connection \<Rightarrow> int \<Rightarrow> rat option \<Rightarrow> connection" where
  "handlePlay db now ws startTime speed =
     (let speed = (case speed of None \<Rightarrow> 1 | Some v \<Rightarrow> v)
      in case latest_by sess_id (sessions db) of
           None \<Rightarrow> ws\<lparr>sent := sent ws @ [Error_msg ''No session found'']\<rparr>
         | Some session \<Rightarrow>
             (let endTime = (case sess_end_time session of
                               None \<Rightarrow> now
                             | Some e \<Rightarrow> if e = 0 then now else e);
                  evs = getEventsInRange db (sess_id session) startTime endTime;
                  i = next_timer ws
              in ws\<lparr>timers := (timers ws)(i \<mapsto>
                         \<lparr>pb_events = evs, pb_endTime = endTime, pb_speed = speed,
                           pb_currentTime = of_int startTime, pb_eventIndex = 0\<rparr>),
                     next_timer := Suc i,
                     playInterval := Some i\<rparr>))"

text \<open>The \<^verbatim>\<open>while\<close> loop of the callback: send every event that is due.\<close>

function send_due ::
  "event_row list \<Rightarrow> rat \<Rightarrow> nat \<Rightarrow> ws_message list \<Rightarrow> nat \<times> ws_message list" where
  "send_due evs currentTime eventIndex out =
     (if eventIndex < length evs \<and> of_int (ev_timestamp (evs ! eventIndex)) \<le> currentTime
      then send_due evs currentTime (Suc eventIndex) (out @ [Event_msg (evs ! eventIndex)])
      else (eventIndex, out))"
  by pat_completeness auto
termination
  by (relation "measure (\<lambda>(evs, currentTime, eventIndex, out). length evs - eventIndex)") auto

definition tick :: "nat \<Rightarrow> connection \<Rightarrow> connection" where
  "tick i ws =
     (case timers ws i of
        None \<Rightarrow> ws
      | Some pb \<Rightarrow>
          (let (eventIndex, out) =
                 send_due (pb_events pb) (pb_currentTime pb) (pb_eventIndex pb) (sent ws);
               currentTime = pb_currentTime pb + 100 * pb_speed pb
           in if of_int (pb_endTime pb) < currentTime \<or> length (pb_events pb) \<le> eventIndex
              then ws\<lparr>timers := (timers ws)(i := None),
                      sent := out @ [Playback_complete]\<rparr>
              else ws\<lparr>timers := (timers ws)(i \<mapsto>
                          pb\<lparr>pb_currentTime := currentTime, pb_eventIndex := eventIndex\<rparr>),
                      sent := out\<rparr>))"

definition handlePause :: "connection \<Rightarrow> connection" where
  "handlePause ws =
     (case playInterval ws of
        None \<Rightarrow> ws
      | Some i \<Rightarrow> ws\<lparr>timers := (timers ws)(i := None), playInterval := None\<rparr>)"

section \<open>Example histories\<close>

text \<open>The scenario of reconstruction: a session, a snapshot of \<^verbatim>\<open>a.js\<close> with content
  \<^verbatim>\<open>x\<close> taken at 1000, and two diffs recorded at 1500 and 2000.\<close>

definition reconstruction_calls :: "call list" where
  "reconstruction_calls =
     [CreateSession 900 ''/proj'' None None,
      AddFileSnapshot 1000 1 ''a.js'' (JSString (js ''x'')),
      AddDiff 1500 1 ''a.js'' ''+y'' 1 1 1 0,
      AddDiff 2000 1 ''a.js'' ''+z'' 1 1 1 0]"

text \<open>Two snapshots of \<^verbatim>\<open>a.js\<close> stored in the same millisecond, first with
  content \<^verbatim>\<open>old\<close>, then with content \<^verbatim>\<open>new\<close>.\<close>

definition same_instant_snapshot_calls :: "call list" where
  "same_instant_snapshot_calls =
     [CreateSession 900 ''/proj'' None None,
      AddFileSnapshot 1000 1 ''a.js'' (JSString (js ''old'')),
      AddFileSnapshot 1000 1 ''a.js'' (JSString (js ''new''))]"

text \<open>A snapshot whose content is a single unpaired surrogate.\<close>

definition lone_surrogate_calls :: "call list" where
  "lone_surrogate_calls =
     [CreateSession 900 ''/proj'' None None,
      AddFileSnapshot 1000 1 ''a.js'' (JSString [0xD800])]"

text \<open>Two appends in the same millisecond, as the recorder makes them: no
  \<open>sequence\<close> argument.\<close>

definition same_instant_calls :: "call list" where
  "same_instant_calls =
     [CreateSession 1000 ''/proj'' None None,
      AddEvent 5000 1 ''edit'' ''a.js'' [] None,
      AddEvent 5000 1 ''create'' ''b.js'' [] None]"

text \<open>The same two appends, the first with \<open>sequence\<close> 1, the second with none.\<close>

definition reversed_sequence_calls :: "call list" where
  "reversed_sequence_calls =
     [CreateSession 1000 ''/proj'' None None,
      AddEvent 5000 1 ''edit'' ''a.js'' [] (Some 1),
      AddEvent 5000 1 ''create'' ''b.js'' [] None]"

text \<open>A store with one open session and nothing else, and the same store after the
  session has been ended.\<close>

definition open_session_calls :: "call list" where
  "open_session_calls = [CreateSession 1000 ''/proj'' None None]"

definition closed_session_calls :: "call list" where
  "closed_session_calls = [CreateSession 1000 ''/proj'' None None, EndSession 2000 1]"

text \<open>A recorded session that ran from 1000 to 1050, with one edit at 1030.\<close>

definition late_event_calls :: "call list" where
  "late_event_calls =
     [CreateSession 1000 ''/proj'' None None,
      AddEvent 1030 1 ''file_edit'' ''a.js'' [(''action'', JStr ''change'')] None,
      EndSession 1050 1]"

text \<open>A recorded session that ran from 1000 to 2000, with edits at 1000 and 1500.\<close>

definition two_event_calls :: "call list" where
  "two_event_calls =
     [CreateSession 1000 ''/proj'' None None,
      AddEvent 1000 1 ''file_edit'' ''a.js'' [(''action'', JStr ''add'')] None,
      AddEvent 1500 1 ''file_edit'' ''b.js'' [(''action'', JStr ''add'')] None,
      EndSession 2000 1]"

section \<open>Invariants\<close>

text \<open>The invariant of the events table: the ids are \<open>1, \<dots>, n\<close> in row order and
  the counter is \<open>n\<close>.\<close>

definition events_inv :: "database \<Rightarrow> bool" where
  "events_inv db \<longleftrightarrow>
     map ev_id (events db) = [1..events_seq db] \<and> events_seq db = int (length (events db))"

text \<open>The fingerprint invariant of the snapshots table.\<close>

definition snapshots_inv :: "node_lib \<Rightarrow> database \<Rightarrow> bool" where
  "snapshots_inv lib db \<longleftrightarrow>
     list_all (\<lambda>r. snap_content_hash r = sha256_hex lib (utf8 (snap_content r)) \<and>
                    snap_size r = length (utf8 (snap_content r)))
              (file_snapshots db)"

text \<open>The state of one playback as its interval fires: while the interval is set,
  what has been sent since play is the first \<open>eventIndex\<close> events of its list; once it
  is cleared, it is some initial part of the list followed by the completion signal.\<close>

definition playback_inv ::
  "event_row list \<Rightarrow> ws_message list \<Rightarrow> nat \<Rightarrow> connection \<Rightarrow> bool" where
  "playback_inv evs pre i ws =
     (case timers ws i of
        Some pb \<Rightarrow> pb_events pb = evs \<and> pb_eventIndex pb \<le> length evs \<and>
                   sent ws = pre @ map Event_msg (take (pb_eventIndex pb) evs)
      | None \<Rightarrow> (\<exists>k\<le>length evs.
                   sent ws = pre @ map Event_msg (take k evs) @ [Playback_complete]))"


section \<open>Encoding\<close>

lemma utf8_Cons_not_high:
  "\<not> high_surrogate u \<Longrightarrow>
   utf8 (u # xs) = (if low_surrogate u then [0xEF, 0xBF, 0xBD] else utf8_unit u) @ utf8 xs"
  by (cases xs) simp_all

lemma replacement_character:
  "\<not> high_surrogate 0xFFFD" "\<not> low_surrogate 0xFFFD" "utf8_unit 0xFFFD = [0xEF, 0xBF, 0xBD]"
  by (simp_all add: high_surrogate_def low_surrogate_def utf8_unit_def)

lemma utf8_replacement: "utf8 (0xFFFD # xs) = [0xEF, 0xBF, 0xBD] @ utf8 xs"
  by (simp add: utf8_Cons_not_high replacement_character)

lemma utf8_toWellFormed: "utf8 (toWellFormed s) = utf8 s"
proof (induction s rule: toWellFormed.induct)
  case 1
  show ?case by simp
next
  case (2 u)
  show ?case
    by (simp add: replacement_character)
next
  case (3 u v rest)
  show ?case
  proof (cases "high_surrogate u \<and> low_surrogate v")
    case True
    with 3 show ?thesis by simp
  next
    case False
    show ?thesis
    proof (cases "high_surrogate u \<or> low_surrogate u")
      case True
      with False 3 show ?thesis by (auto simp: utf8_replacement)
    next
      case notsur: False
      then have "\<not> high_surrogate u" by simp
      with False notsur 3 show ?thesis by (auto simp: utf8_Cons_not_high)
    qed
  qed
qed

lemma length_toWellFormed: "length (toWellFormed s) = length s"
  by (induction s rule: toWellFormed.induct) simp_all

lemma toWellFormed_no_surrogates:
  "list_all (\<lambda>u. \<not> high_surrogate u \<and> \<not> low_surrogate u) s \<Longrightarrow> toWellFormed s = s"
  by (induction s rule: toWellFormed.induct) simp_all

lemma toWellFormed_js: "toWellFormed (js ''x'') = js ''x''" "utf8 (js ''x'') = [0x78]"
  by (simp_all add: js_def high_surrogate_def low_surrogate_def utf8_unit_def)


section \<open>Reconstruction\<close>

lemma latest_by_None: "latest_by key xs = None \<longleftrightarrow> xs = []"
  by (induction xs) (auto split: option.splits)

lemma latest_by_Some:
  "latest_by key xs = Some y \<Longrightarrow> y \<in> set xs \<and> (\<forall>x\<in>set xs. key x \<le> key y)"
  by (induction xs arbitrary: y) (auto split: option.splits if_splits simp: latest_by_None)

lemma latest_by_split:
  "latest_by key xs = Some y \<Longrightarrow>
   \<exists>pre post. xs = pre @ y # post \<and> (\<forall>x\<in>set pre. key x \<le> key y) \<and>
              (\<forall>x\<in>set post. key x < key y)"
proof (induction xs arbitrary: y)
  case Nil
  then show ?case by simp
next
  case (Cons a xs)
  show ?case
  proof (cases "latest_by key xs")
    case None
    then have "xs = []" by (simp add: latest_by_None)
    with Cons.prems have "a # xs = [] @ y # []" by simp
    then show ?thesis by fastforce
  next
    case (Some z)
    show ?thesis
    proof (cases "key z < key a")
      case True
      with Some Cons.prems have ya: "y = a" by simp
      from latest_by_Some [OF Some] True have "\<forall>x\<in>set xs. key x < key a" by fastforce
      with ya have "a # xs = [] @ y # xs \<and> (\<forall>x\<in>set []. key x \<le> key y) \<and>
                    (\<forall>x\<in>set xs. key x < key y)"
        by simp
      then show ?thesis by blast
    next
      case False
      with Some Cons.prems have yz: "y = z" by simp
      from Cons.IH [OF Some] obtain pre post where
        xs: "xs = pre @ z # post" and pre: "\<forall>x\<in>set pre. key x \<le> key z"
        and post: "\<forall>x\<in>set post. key x < key z"
        by blast
      from False pre have "\<forall>x\<in>set (a # pre). key x \<le> key z" by simp
      with xs post yz have "a # xs = (a # pre) @ y # post \<and>
          (\<forall>x\<in>set (a # pre). key x \<le> key y) \<and> (\<forall>x\<in>set post. key x < key y)"
        by simp
      then show ?thesis by blast
    qed
  qed
qed

lemmas store_defs =
  history_def init_db_def createSession_def endSession_def addEvent_def
  addFileSnapshot_def addDiff_def fk_ok_def Let_def

lemma reconstruction_db:
  "history lib fk reconstruction_calls =
     \<lparr>sessions =
        [\<lparr>sess_id = 1, sess_start_time = 900, sess_end_time = None,
          sess_project_path = ''/proj'', sess_git_branch = None, sess_git_commit = None\<rparr>],
      sessions_seq = 1, events = [], events_seq = 0,
      file_snapshots =
        [\<lparr>snap_id = 1, snap_session_id = 1, snap_file_path = ''a.js'',
          snap_timestamp = 1000, snap_content = js ''x'',
          snap_content_hash = sha256_hex lib (utf8 (js ''x'')),
          snap_size = length (utf8 (js ''x''))\<rparr>],
      file_snapshots_seq = 1,
      diffs =
        [\<lparr>diff_id = 1, diff_session_id = 1, diff_file_path = ''a.js'',
          diff_timestamp = 1500, diff_data = ''+y'', diff_line_start = 1,
          diff_line_end = 1, diff_chars_added = 1, diff_chars_removed = 0\<rparr>,
         \<lparr>diff_id = 2, diff_session_id = 1, diff_file_path = ''a.js'',
          diff_timestamp = 2000, diff_data = ''+z'', diff_line_start = 1,
          diff_line_end = 1, diff_chars_added = 1, diff_chars_removed = 0\<rparr>],
      diffs_seq = 2, foreign_keys = fk\<rparr>"
  by (simp add: reconstruction_calls_def store_defs js_def high_surrogate_def
        low_surrogate_def)

text \<open>
  C1. Reconstruction should apply the diffs recorded after the anchor snapshot: in the
  scenario the content at 1200, 1700 and 2500 should be \<^verbatim>\<open>x\<close>, \<^verbatim>\<open>xy\<close> and \<^verbatim>\<open>xyz\<close>.
  The code selects the diffs (one at 1700, both at 2500) and then returns the
  snapshot's content \<^verbatim>\<open>x\<close> at all three times, because \<^verbatim>\<open>applyDiffs\<close> ignores them.
\<close>

theorem C1_reconstruction_returns_base_content:
  "map_option (\<lambda>r. (map diff_data (fs_diffs r), reconstructedContent r))
     (getFileStateAtTime (history lib fk reconstruction_calls) 1 ''a.js'' 1200)
     = Some ([], js ''x'') \<and>
   map_option (\<lambda>r. (map diff_data (fs_diffs r), reconstructedContent r))
     (getFileStateAtTime (history lib fk reconstruction_calls) 1 ''a.js'' 1700)
     = Some ([''+y''], js ''x'') \<and>
   map_option (\<lambda>r. (map diff_data (fs_diffs r), reconstructedContent r))
     (getFileStateAtTime (history lib fk reconstruction_calls) 1 ''a.js'' 2500)
     = Some ([''+y'', ''+z''], js ''x'') \<and>
   js ''x'' \<noteq> js ''xy'' \<and> js ''x'' \<noteq> js ''xyz''"
  by (simp add: reconstruction_db getFileStateAtTime_def applyDiffs_def js_def)

lemma same_instant_snapshots_db:
  "history lib fk same_instant_snapshot_calls =
     \<lparr>sessions =
        [\<lparr>sess_id = 1, sess_start_time = 900, sess_end_time = None,
          sess_project_path = ''/proj'', sess_git_branch = None, sess_git_commit = None\<rparr>],
      sessions_seq = 1, events = [], events_seq = 0,
      file_snapshots =
        [\<lparr>snap_id = 1, snap_session_id = 1, snap_file_path = ''a.js'',
          snap_timestamp = 1000, snap_content = js ''old'',
          snap_content_hash = sha256_hex lib (utf8 (js ''old'')),
          snap_size = length (utf8 (js ''old''))\<rparr>,
         \<lparr>snap_id = 2, snap_session_id = 1, snap_file_path = ''a.js'',
          snap_timestamp = 1000, snap_content = js ''new'',
          snap_content_hash = sha256_hex lib (utf8 (js ''new'')),
          snap_size = length (utf8 (js ''new''))\<rparr>],
      file_snapshots_seq = 2, diffs = [], diffs_seq = 0, foreign_keys = fk\<rparr>"
  by (simp add: same_instant_snapshot_calls_def store_defs js_def high_surrogate_def
        low_surrogate_def)

text \<open>
  C9. Base cases of reconstruction. If no snapshot of the path in the session has a
  timestamp at or before \<open>t\<close>, \<open>getFileStateAtTime\<close> returns nothing. If some snapshot
  has, it returns a state whose snapshot is the latest of them: among the snapshots of
  the path in the session taken at or before \<open>t\<close>, in the order they were stored, none
  stored before it has a greater timestamp and every one stored after it has a
  smaller one, so of several snapshots with the greatest timestamp it is the last
  stored. When no diff of the path lies after that snapshot and at or before \<open>t\<close>,
  the list of diffs is empty and the reconstructed content is the snapshot's content.
\<close>

theorem C9_reconstruction_base_cases:
  "((\<forall>s\<in>set (file_snapshots db).
       \<not> (snap_session_id s = sid \<and> snap_file_path s = p \<and> snap_timestamp s \<le> t))
     \<longrightarrow> getFileStateAtTime db sid p t = None) \<and>
   (\<forall>s\<in>set (file_snapshots db).
       snap_session_id s = sid \<and> snap_file_path s = p \<and> snap_timestamp s \<le> t \<longrightarrow>
       (\<exists>r pre post.
            getFileStateAtTime db sid p t = Some r \<and>
            filter (\<lambda>s. snap_session_id s = sid \<and> snap_file_path s = p \<and>
                          snap_timestamp s \<le> t) (file_snapshots db)
              = pre @ fs_snapshot r # post \<and>
            (\<forall>x\<in>set pre. snap_timestamp x \<le> snap_timestamp (fs_snapshot r)) \<and>
            (\<forall>x\<in>set post. snap_timestamp x < snap_timestamp (fs_snapshot r)) \<and>
            fs_snapshot r \<in> set (file_snapshots db) \<and>
            snap_session_id (fs_snapshot r) = sid \<and>
            snap_file_path (fs_snapshot r) = p \<and>
            snap_timestamp (fs_snapshot r) \<le> t \<and>
            snap_timestamp s \<le> snap_timestamp (fs_snapshot r) \<and>
            ((\<forall>d\<in>set (diffs db).
                 \<not> (diff_session_id d = sid \<and> diff_file_path d = p \<and>
                    snap_timestamp (fs_snapshot r) < diff_timestamp d \<and>
                    diff_timestamp d \<le> t))
              \<longrightarrow> fs_diffs r = [] \<and>
                  reconstructedContent r = snap_content (fs_snapshot r))))"
proof (intro conjI impI ballI)
  assume "\<forall>s\<in>set (file_snapshots db).
       \<not> (snap_session_id s = sid \<and> snap_file_path s = p \<and> snap_timestamp s \<le> t)"
  then have "filter (\<lambda>s. snap_session_id s = sid \<and> snap_file_path s = p \<and>
                          snap_timestamp s \<le> t) (file_snapshots db) = []"
    by (simp add: filter_empty_conv)
  then show "getFileStateAtTime db sid p t = None"
    by (simp add: getFileStateAtTime_def)
next
  fix s
  assume s_in: "s \<in> set (file_snapshots db)"
    and s_ok: "snap_session_id s = sid \<and> snap_file_path s = p \<and> snap_timestamp s \<le> t"
  let ?cands = "filter (\<lambda>s. snap_session_id s = sid \<and> snap_file_path s = p \<and>
                          snap_timestamp s \<le> t) (file_snapshots db)"
  from s_in s_ok have s_cand: "s \<in> set ?cands" by simp
  then have "?cands \<noteq> []" by (metis empty_iff empty_set)
  then have "latest_by snap_timestamp ?cands \<noteq> None"
    by (simp only: latest_by_None not_False_eq_True)
  then obtain y where y: "latest_by snap_timestamp ?cands = Some y" by blast
  from latest_by_Some [OF y] have y_in: "y \<in> set ?cands"
    and y_max: "\<forall>x\<in>set ?cands. snap_timestamp x \<le> snap_timestamp y"
    by blast+
  from latest_by_split [OF y] obtain pre post where
    split: "?cands = pre @ y # post"
    and pre: "\<forall>x\<in>set pre. snap_timestamp x \<le> snap_timestamp y"
    and post: "\<forall>x\<in>set post. snap_timestamp x < snap_timestamp y"
    by blast
  let ?ds = "sort_key diff_timestamp
               (filter (\<lambda>d. diff_session_id d = sid \<and> diff_file_path d = p \<and>
                             snap_timestamp y < diff_timestamp d \<and> diff_timestamp d \<le> t)
                       (diffs db))"
  let ?r = "\<lparr>fs_snapshot = y, fs_diffs = ?ds, reconstructedContent = snap_content y\<rparr>"
  have res: "getFileStateAtTime db sid p t = Some ?r"
    using y by (simp add: getFileStateAtTime_def applyDiffs_def)
  have no_diffs: "fs_diffs ?r = []"
    if "\<forall>d\<in>set (diffs db).
          \<not> (diff_session_id d = sid \<and> diff_file_path d = p \<and>
             snap_timestamp (fs_snapshot ?r) < diff_timestamp d \<and> diff_timestamp d \<le> t)"
  proof -
    from that have "filter (\<lambda>d. diff_session_id d = sid \<and> diff_file_path d = p \<and>
                             snap_timestamp y < diff_timestamp d \<and> diff_timestamp d \<le> t)
                       (diffs db) = []"
      by (simp add: filter_empty_conv)
    then show ?thesis by simp
  qed
  show "\<exists>r pre post.
            getFileStateAtTime db sid p t = Some r \<and>
            filter (\<lambda>s. snap_session_id s = sid \<and> snap_file_path s = p \<and>
                          snap_timestamp s \<le> t) (file_snapshots db)
              = pre @ fs_snapshot r # post \<and>
            (\<forall>x\<in>set pre. snap_timestamp x \<le> snap_timestamp (fs_snapshot r)) \<and>
            (\<forall>x\<in>set post. snap_timestamp x < snap_timestamp (fs_snapshot r)) \<and>
            fs_snapshot r \<in> set (file_snapshots db) \<and>
            snap_session_id (fs_snapshot r) = sid \<and>
            snap_file_path (fs_snapshot r) = p \<and>
            snap_timestamp (fs_snapshot r) \<le> t \<and>
            snap_timestamp s \<le> snap_timestamp (fs_snapshot r) \<and>
            ((\<forall>d\<in>set (diffs db).
                 \<not> (diff_session_id d = sid \<and> diff_file_path d = p \<and>
                    snap_timestamp (fs_snapshot r) < diff_timestamp d \<and>
                    diff_timestamp d \<le> t))
              \<longrightarrow> fs_diffs r = [] \<and>
                  reconstructedContent r = snap_content (fs_snapshot r))"
  proof (rule exI [of _ ?r], rule exI [of _ pre], rule exI [of _ post], intro conjI impI)
    show "getFileStateAtTime db sid p t = Some ?r" by (rule res)
    show "?cands = pre @ fs_snapshot ?r # post" using split by simp
    show "\<forall>x\<in>set pre. snap_timestamp x \<le> snap_timestamp (fs_snapshot ?r)"
      using pre by simp
    show "\<forall>x\<in>set post. snap_timestamp x < snap_timestamp (fs_snapshot ?r)"
      using post by simp
    show "fs_snapshot ?r \<in> set (file_snapshots db)" using y_in by simp
    show "snap_session_id (fs_snapshot ?r) = sid" using y_in by simp
    show "snap_file_path (fs_snapshot ?r) = p" using y_in by simp
    show "snap_timestamp (fs_snapshot ?r) \<le> t" using y_in by simp
    show "snap_timestamp s \<le> snap_timestamp (fs_snapshot ?r)"
      using y_max s_cand by simp
  next
    assume "\<forall>d\<in>set (diffs db).
          \<not> (diff_session_id d = sid \<and> diff_file_path d = p \<and>
             snap_timestamp (fs_snapshot ?r) < diff_timestamp d \<and> diff_timestamp d \<le> t)"
    then show "fs_diffs ?r = []" by (rule no_diffs)
  next
    show "reconstructedContent ?r = snap_content (fs_snapshot ?r)" by simp
  qed
qed

theorem C9_reconstruction_base_cases_witness:
  "getFileStateAtTime (history example_lib True reconstruction_calls) 1 ''a.js'' 999 = None \<and>
   map_option (\<lambda>r. (fs_diffs r, reconstructedContent r))
     (getFileStateAtTime (history example_lib True reconstruction_calls) 1 ''a.js'' 1200)
     = Some ([], js ''x'') \<and>
   map_option (\<lambda>r. (snap_id (fs_snapshot r), fs_diffs r, reconstructedContent r))
     (getFileStateAtTime (history example_lib True same_instant_snapshot_calls) 1 ''a.js'' 1000)
     = Some (2, [], js ''new'')"
  using C9_reconstruction_base_cases
          [where db = "history example_lib True reconstruction_calls" and sid = 1
             and p = "''a.js''" and t = 999]
        C9_reconstruction_base_cases
          [where db = "history example_lib True reconstruction_calls" and sid = 1
             and p = "''a.js''" and t = 1200]
        C9_reconstruction_base_cases
          [where db = "history example_lib True same_instant_snapshot_calls" and sid = 1
             and p = "''a.js''" and t = 1000]
  by (simp add: reconstruction_db same_instant_snapshots_db getFileStateAtTime_def
        applyDiffs_def js_def)

section \<open>The event log\<close>

lemma events_inv_init: "events_inv (init_db fk)"
  by (simp add: events_inv_def init_db_def)

lemma events_inv_addEvent:
  assumes "events_inv db" and "addEvent db now sid ty src d q = Inr (db', r)"
  shows "events_inv db'"
proof -
  from assms(2) have ev: "events db' = events db @
      [\<lparr>ev_id = events_seq db + 1, ev_session_id = sid, ev_timestamp = now, ev_type = ty,
        ev_source = src, ev_data = d,
        ev_sequence = (case q of None \<Rightarrow> 0 | Some n \<Rightarrow> n)\<rparr>]"
    and sq: "events_seq db' = events_seq db + 1"
    by (auto simp: addEvent_def Let_def split: if_splits)
  from assms(1) have ids: "map ev_id (events db) = [1..events_seq db]"
    and n: "events_seq db = int (length (events db))"
    by (simp_all add: events_inv_def)
  have "0 \<le> events_seq db" using n by simp
  then have "[1..events_seq db + 1] = [1..events_seq db] @ [events_seq db + 1]"
    by (simp add: upto_rec2)
  then show ?thesis
    using ev sq ids n by (simp add: events_inv_def)
qed

lemma events_inv_after_call:
  assumes "events_inv db"
  shows "events_inv (after_call lib db c)"
proof (cases c)
  case (CreateSession now p b g)
  then show ?thesis using assms by (simp add: events_inv_def createSession_def Let_def)
next
  case (EndSession now sid)
  then show ?thesis using assms by (simp add: events_inv_def endSession_def Let_def)
next
  case (AddEvent now sid ty src d q)
  then show ?thesis using assms events_inv_addEvent
    by (auto split: sum.splits)
next
  case (AddFileSnapshot now sid p content)
  then show ?thesis using assms
    by (auto simp: events_inv_def addFileSnapshot_def Let_def split: sum.splits if_splits)
next
  case (AddDiff now sid p dd ls le ca cr)
  then show ?thesis using assms
    by (auto simp: events_inv_def addDiff_def Let_def split: sum.splits if_splits)
qed

lemma events_inv_foldl:
  "events_inv db \<Longrightarrow> events_inv (foldl (after_call lib) db calls)"
  by (induction calls arbitrary: db) (simp_all add: events_inv_after_call)

lemma events_inv_history: "events_inv (history lib fk calls)"
  by (simp add: history_def events_inv_foldl events_inv_init)

lemma same_instant_db:
  "history lib fk same_instant_calls =
     \<lparr>sessions =
        [\<lparr>sess_id = 1, sess_start_time = 1000, sess_end_time = None,
          sess_project_path = ''/proj'', sess_git_branch = None, sess_git_commit = None\<rparr>],
      sessions_seq = 1,
      events =
        [\<lparr>ev_id = 1, ev_session_id = 1, ev_timestamp = 5000, ev_type = ''edit'',
          ev_source = ''a.js'', ev_data = [], ev_sequence = 0\<rparr>,
         \<lparr>ev_id = 2, ev_session_id = 1, ev_timestamp = 5000, ev_type = ''create'',
          ev_source = ''b.js'', ev_data = [], ev_sequence = 0\<rparr>],
      events_seq = 2, file_snapshots = [], file_snapshots_seq = 0, diffs = [],
      diffs_seq = 0, foreign_keys = fk\<rparr>"
  by (simp add: same_instant_calls_def store_defs)

lemma reversed_sequence_db:
  "history lib fk reversed_sequence_calls =
     \<lparr>sessions =
        [\<lparr>sess_id = 1, sess_start_time = 1000, sess_end_time = None,
          sess_project_path = ''/proj'', sess_git_branch = None, sess_git_commit = None\<rparr>],
      sessions_seq = 1,
      events =
        [\<lparr>ev_id = 1, ev_session_id = 1, ev_timestamp = 5000, ev_type = ''edit'',
          ev_source = ''a.js'', ev_data = [], ev_sequence = 1\<rparr>,
         \<lparr>ev_id = 2, ev_session_id = 1, ev_timestamp = 5000, ev_type = ''create'',
          ev_source = ''b.js'', ev_data = [], ev_sequence = 0\<rparr>],
      events_seq = 2, file_snapshots = [], file_snapshots_seq = 0, diffs = [],
      diffs_seq = 0, foreign_keys = fk\<rparr>"
  by (simp add: reversed_sequence_calls_def store_defs)

text \<open>
  C2, as stated, fails: the store assigns no sequence numbers. Two events appended
  without a \<open>sequence\<close> argument both carry \<open>sequence\<close> 0.
\<close>

theorem C2_sequence_column_counterexample:
  "map ev_sequence (events (history example_lib True same_instant_calls)) = [0, 0] \<and>
   \<not> sorted_wrt (<) (map ev_sequence (events (history example_lib True same_instant_calls)))"
  by (simp add: same_instant_db)

text \<open>
  C2, amended. What the store assigns on append is the row id. After any history of
  calls on a fresh store the ids of the events, in append order, are \<open>1, 2, \<dots>, n\<close>:
  strictly increasing without gaps, whatever the timestamps. A successful \<open>addEvent\<close>
  appends one row, returns its id, the next integer, and stores as \<open>sequence\<close> the
  caller's argument, 0 when there is none.
\<close>

theorem C2_event_ids_consecutive:
  "map ev_id (events (history lib fk calls)) =
     [1..int (length (events (history lib fk calls)))] \<and>
   (addEvent (history lib fk calls) now sid ty src d q = Inr (db', r) \<longrightarrow>
      res_id r = int (length (events (history lib fk calls))) + 1 \<and>
      events db' = events (history lib fk calls) @
        [\<lparr>ev_id = res_id r, ev_session_id = sid, ev_timestamp = now, ev_type = ty,
          ev_source = src, ev_data = d,
          ev_sequence = (case q of None \<Rightarrow> 0 | Some n \<Rightarrow> n)\<rparr>])"
proof -
  have inv: "events_inv (history lib fk calls)" by (rule events_inv_history)
  then have "map ev_id (events (history lib fk calls)) =
     [1..int (length (events (history lib fk calls)))]"
    by (simp add: events_inv_def)
  moreover have "res_id r = int (length (events (history lib fk calls))) + 1 \<and>
      events db' = events (history lib fk calls) @
        [\<lparr>ev_id = res_id r, ev_session_id = sid, ev_timestamp = now, ev_type = ty,
          ev_source = src, ev_data = d,
          ev_sequence = (case q of None \<Rightarrow> 0 | Some n \<Rightarrow> n)\<rparr>]"
    if "addEvent (history lib fk calls) now sid ty src d q = Inr (db', r)"
    using that inv by (auto simp: addEvent_def events_inv_def Let_def split: if_splits)
  ultimately show ?thesis by blast
qed

theorem C2_event_ids_consecutive_witness:
  "map ev_id (events (history example_lib True same_instant_calls)) = [1, 2] \<and>
   map_sum id (\<lambda>(db', r). (res_id r, map ev_id (events db'), map ev_sequence (events db')))
     (addEvent (history example_lib True same_instant_calls) 5000 1 ''edit'' ''c.js'' [] None)
     = Inr (3, [1, 2, 3], [0, 0, 0])"
  using C2_event_ids_consecutive [of example_lib True same_instant_calls 5000 1
          "''edit''" "''c.js''" "[]" None]
  by (simp add: same_instant_db addEvent_def fk_ok_def Let_def)

text \<open>
  C3, as stated, fails: the order within a timestamp is that of the \<open>sequence\<close>
  values the callers passed. An edit of \<^verbatim>\<open>a.js\<close> appended with \<open>sequence\<close> 1 and then
  a create of \<^verbatim>\<open>b.js\<close> appended at the same timestamp with no \<open>sequence\<close> come back
  reversed.
\<close>

theorem C3_tie_break_counterexample:
  "map (\<lambda>e. (ev_type e, ev_source e))
     (getEventsInRange (history example_lib True reversed_sequence_calls) 1 5000 5000)
   = [(''create'', ''b.js''), (''edit'', ''a.js'')]"
  by (simp add: reversed_sequence_db getEventsInRange_def)

text \<open>
  C3, amended. The range query returns the events of the session within the range,
  sorted by (timestamp, sequence), \<open>sequence\<close> being the value the caller gave; events
  that agree on both come in append order. So the two events appended at 5000 with no
  \<open>sequence\<close> argument are returned in append order.
\<close>

theorem C3_range_sorted_and_stable:
  "sorted (map (\<lambda>e. (ev_timestamp e, ev_sequence e)) (getEventsInRange db sid a b)) \<and>
   (\<forall>k. filter (\<lambda>e. (ev_timestamp e, ev_sequence e) = k) (getEventsInRange db sid a b) =
        filter (\<lambda>e. (ev_timestamp e, ev_sequence e) = k)
          (filter (\<lambda>e. ev_session_id e = sid \<and> a \<le> ev_timestamp e \<and> ev_timestamp e \<le> b)
             (events db))) \<and>
   map (\<lambda>e. (ev_type e, ev_source e))
     (getEventsInRange (history lib fk same_instant_calls) 1 5000 5000)
   = [(''edit'', ''a.js''), (''create'', ''b.js'')]"
  by (simp add: getEventsInRange_def sort_key_stable same_instant_db)

section \<open>Writes the specification expects to be refused\<close>

lemma open_session_db:
  "history lib fk open_session_calls =
     \<lparr>sessions =
        [\<lparr>sess_id = 1, sess_start_time = 1000, sess_end_time = None,
          sess_project_path = ''/proj'', sess_git_branch = None, sess_git_commit = None\<rparr>],
      sessions_seq = 1, events = [], events_seq = 0, file_snapshots = [],
      file_snapshots_seq = 0, diffs = [], diffs_seq = 0, foreign_keys = fk\<rparr>"
  by (simp add: open_session_calls_def store_defs)

lemma closed_session_db:
  "history lib fk closed_session_calls =
     \<lparr>sessions =
        [\<lparr>sess_id = 1, sess_start_time = 1000, sess_end_time = Some 2000,
          sess_project_path = ''/proj'', sess_git_branch = None, sess_git_commit = None\<rparr>],
      sessions_seq = 1, events = [], events_seq = 0, file_snapshots = [],
      file_snapshots_seq = 0, diffs = [], diffs_seq = 0, foreign_keys = fk\<rparr>"
  by (simp add: closed_session_calls_def store_defs)

text \<open>
  C6, as stated, fails: \<open>addDiff\<close> on a store that holds no snapshot at all returns
  normally and the diff is in the table.
\<close>

theorem C6_diff_without_anchor_counterexample:
  "file_snapshots (history example_lib True open_session_calls) = [] \<and>
   addDiff (history example_lib True open_session_calls) 1500 1 ''a.js'' ''+y'' 1 1 1 0
   = Inr (\<lparr>sessions =
             [\<lparr>sess_id = 1, sess_start_time = 1000, sess_end_time = None,
               sess_project_path = ''/proj'', sess_git_branch = None,
               sess_git_commit = None\<rparr>],
           sessions_seq = 1, events = [], events_seq = 0, file_snapshots = [],
           file_snapshots_seq = 0,
           diffs =
             [\<lparr>diff_id = 1, diff_session_id = 1, diff_file_path = ''a.js'',
               diff_timestamp = 1500, diff_data = ''+y'', diff_line_start = 1,
               diff_line_end = 1, diff_chars_added = 1, diff_chars_removed = 0\<rparr>],
           diffs_seq = 1, foreign_keys = True\<rparr>,
          \<lparr>res_id = 1, res_changes = 1\<rparr>)"
  by (simp add: open_session_db addDiff_def fk_ok_def Let_def)

text \<open>
  C6, amended. \<open>addDiff\<close> never looks at the snapshots. Whenever the session row exists
  (or foreign keys are not enforced) it appends the diff and returns the new row's id,
  whether or not the path has a snapshot; the snapshots are left as they were.
\<close>

theorem C6_addDiff_needs_no_anchor:
  "fk_ok db sid \<Longrightarrow>
   \<exists>db' r. addDiff db now sid p dd ls le ca cr = Inr (db', r) \<and>
     diffs db' = diffs db @
       [\<lparr>diff_id = res_id r, diff_session_id = sid, diff_file_path = p,
         diff_timestamp = now, diff_data = dd, diff_line_start = ls, diff_line_end = le,
         diff_chars_added = ca, diff_chars_removed = cr\<rparr>] \<and>
     res_id r = diffs_seq db + 1 \<and>
     file_snapshots db' = file_snapshots db"
  by (simp add: addDiff_def Let_def)

theorem C6_addDiff_needs_no_anchor_witness:
  "fk_ok (history example_lib True open_session_calls) 1 \<and>
   filter (\<lambda>s. snap_file_path s = ''a.js'')
     (file_snapshots (history example_lib True open_session_calls)) = [] \<and>
   (\<exists>db' r. addDiff (history example_lib True open_session_calls) 1500 1 ''a.js'' ''+y'' 1 1 1 0
        = Inr (db', r) \<and> map diff_file_path (diffs db') = [''a.js''] \<and> res_id r = 1)"
proof -
  have ok: "fk_ok (history example_lib True open_session_calls) 1"
    by (simp add: open_session_db fk_ok_def)
  from C6_addDiff_needs_no_anchor [OF ok, of 1500 "''a.js''" "''+y''" 1 1 1 0]
  obtain db' r where
    "addDiff (history example_lib True open_session_calls) 1500 1 ''a.js'' ''+y'' 1 1 1 0
       = Inr (db', r)"
    "diffs db' = diffs (history example_lib True open_session_calls) @
       [\<lparr>diff_id = res_id r, diff_session_id = 1, diff_file_path = ''a.js'',
         diff_timestamp = 1500, diff_data = ''+y'', diff_line_start = 1, diff_line_end = 1,
         diff_chars_added = 1, diff_chars_removed = 0\<rparr>]"
    "res_id r = diffs_seq (history example_lib True open_session_calls) + 1"
    by blast
  then have "addDiff (history example_lib True open_session_calls) 1500 1 ''a.js'' ''+y'' 1 1 1 0
        = Inr (db', r) \<and> map diff_file_path (diffs db') = [''a.js''] \<and> res_id r = 1"
    by (simp add: open_session_db)
  then show ?thesis using ok by (auto simp: open_session_db)
qed

text \<open>
  C7, as stated, fails: after \<open>endSession\<close> an append to the session returns normally
  and the event is in the log.
\<close>

theorem C7_append_after_end_counterexample:
  "map sess_end_time (sessions (history example_lib True closed_session_calls)) = [Some 2000] \<and>
   events (history example_lib True closed_session_calls) = [] \<and>
   addEvent (history example_lib True closed_session_calls) 3000 1 ''file_edit'' ''a.js''
     [(''action'', JStr ''change'')] None
   = Inr (\<lparr>sessions =
             [\<lparr>sess_id = 1, sess_start_time = 1000, sess_end_time = Some 2000,
               sess_project_path = ''/proj'', sess_git_branch = None,
               sess_git_commit = None\<rparr>],
           sessions_seq = 1,
           events =
             [\<lparr>ev_id = 1, ev_session_id = 1, ev_timestamp = 3000, ev_type = ''file_edit'',
               ev_source = ''a.js'', ev_data = [(''action'', JStr ''change'')],
               ev_sequence = 0\<rparr>],
           events_seq = 1, file_snapshots = [], file_snapshots_seq = 0, diffs = [],
           diffs_seq = 0, foreign_keys = True\<rparr>,
          \<lparr>res_id = 1, res_changes = 1\<rparr>)"
  by (simp add: closed_session_db addEvent_def fk_ok_def Let_def)

text \<open>
  C7, amended. \<open>endSession\<close> sets the end time of the session, and \<open>addEvent\<close> never
  looks at it: an append to a session whose end time is set succeeds, the event is
  appended to the log and its id returned, and the session keeps its end time.
\<close>

theorem C7_append_after_end_succeeds:
  "(\<forall>s\<in>set (sessions (endSession db t sid)). sess_id s = sid \<longrightarrow> sess_end_time s = Some t) \<and>
   (s \<in> set (sessions db) \<and> sess_id s = sid \<and> sess_end_time s = Some e \<longrightarrow>
      (\<exists>db' r. addEvent db now sid ty src d q = Inr (db', r) \<and>
         events db' = events db @
           [\<lparr>ev_id = res_id r, ev_session_id = sid, ev_timestamp = now, ev_type = ty,
             ev_source = src, ev_data = d,
             ev_sequence = (case q of None \<Rightarrow> 0 | Some n \<Rightarrow> n)\<rparr>] \<and>
         res_id r = events_seq db + 1 \<and>
         sessions db' = sessions db))"
proof (intro conjI impI)
  have ended: "sessions (endSession db t sid) =
      map (\<lambda>s. if sess_id s = sid then s\<lparr>sess_end_time := Some t\<rparr> else s) (sessions db)"
    by (simp add: endSession_def)
  show "\<forall>s\<in>set (sessions (endSession db t sid)). sess_id s = sid \<longrightarrow> sess_end_time s = Some t"
    unfolding ended by (simp only: set_map ball_simps) simp
next
  assume "s \<in> set (sessions db) \<and> sess_id s = sid \<and> sess_end_time s = Some e"
  then have "fk_ok db sid" by (auto simp: fk_ok_def)
  then show "\<exists>db' r. addEvent db now sid ty src d q = Inr (db', r) \<and>
         events db' = events db @
           [\<lparr>ev_id = res_id r, ev_session_id = sid, ev_timestamp = now, ev_type = ty,
             ev_source = src, ev_data = d,
             ev_sequence = (case q of None \<Rightarrow> 0 | Some n \<Rightarrow> n)\<rparr>] \<and>
         res_id r = events_seq db + 1 \<and>
         sessions db' = sessions db"
    by (simp add: addEvent_def Let_def)
qed

theorem C7_append_after_end_succeeds_witness:
  "sessions (endSession (history example_lib True open_session_calls) 2000 1) =
     [\<lparr>sess_id = 1, sess_start_time = 1000, sess_end_time = Some 2000,
       sess_project_path = ''/proj'', sess_git_branch = None, sess_git_commit = None\<rparr>] \<and>
   history example_lib True closed_session_calls =
     endSession (history example_lib True open_session_calls) 2000 1 \<and>
   (\<exists>db' r. addEvent (history example_lib True closed_session_calls) 3000 1
               ''file_edit'' ''a.js'' [] None = Inr (db', r) \<and>
            map ev_timestamp (events db') = [3000] \<and>
            map sess_end_time (sessions db') = [Some 2000])"
  using C7_append_after_end_succeeds
          [of "history example_lib True open_session_calls" 2000 1
              "\<lparr>sess_id = 1, sess_start_time = 1000, sess_end_time = Some 2000,
                sess_project_path = ''/proj'', sess_git_branch = None,
                sess_git_commit = None\<rparr>" 2000 3000 "''file_edit''" "''a.js''" "[]" None]
        C7_append_after_end_succeeds
          [of "history example_lib True closed_session_calls" 2000 1
              "\<lparr>sess_id = 1, sess_start_time = 1000, sess_end_time = Some 2000,
                sess_project_path = ''/proj'', sess_git_branch = None,
                sess_git_commit = None\<rparr>" 2000 3000 "''file_edit''" "''a.js''" "[]" None]
  by (simp add: open_session_db closed_session_db endSession_def addEvent_def fk_ok_def Let_def)

section \<open>Snapshots\<close>

lemma count_list_replicate:
  "count_list (replicate n x) y = (if x = y then n else 0)"
  by (induction n) auto

lemma snapshots_inv_init: "snapshots_inv lib (init_db fk)"
  by (simp add: snapshots_inv_def init_db_def)

lemma snapshots_inv_after_call:
  assumes "snapshots_inv lib db"
  shows "snapshots_inv lib (after_call lib db c)"
proof (cases c)
  case (CreateSession now p b g)
  then show ?thesis using assms by (simp add: snapshots_inv_def createSession_def Let_def)
next
  case (EndSession now sid)
  then show ?thesis using assms by (simp add: snapshots_inv_def endSession_def Let_def)
next
  case (AddEvent now sid ty src d q)
  then show ?thesis using assms
    by (auto simp: snapshots_inv_def addEvent_def Let_def split: sum.splits if_splits)
next
  case (AddFileSnapshot now sid p content)
  then show ?thesis using assms
    by (auto simp: snapshots_inv_def addFileSnapshot_def utf8_toWellFormed Let_def
          split: sum.splits if_splits js_value.splits)
next
  case (AddDiff now sid p dd ls le ca cr)
  then show ?thesis using assms
    by (auto simp: snapshots_inv_def addDiff_def Let_def split: sum.splits if_splits)
qed

lemma snapshots_inv_foldl:
  "snapshots_inv lib db \<Longrightarrow> snapshots_inv lib (foldl (after_call lib) db calls)"
  by (induction calls arbitrary: db) (simp_all add: snapshots_inv_after_call)

lemma lone_surrogate_db:
  "history lib fk lone_surrogate_calls =
     \<lparr>sessions =
        [\<lparr>sess_id = 1, sess_start_time = 900, sess_end_time = None,
          sess_project_path = ''/proj'', sess_git_branch = None, sess_git_commit = None\<rparr>],
      sessions_seq = 1, events = [], events_seq = 0,
      file_snapshots =
        [\<lparr>snap_id = 1, snap_session_id = 1, snap_file_path = ''a.js'',
          snap_timestamp = 1000, snap_content = [0xFFFD],
          snap_content_hash = sha256_hex lib [0xEF, 0xBF, 0xBD], snap_size = 3\<rparr>],
      file_snapshots_seq = 1, diffs = [], diffs_seq = 0, foreign_keys = fk\<rparr>"
  by (simp add: lone_surrogate_calls_def store_defs high_surrogate_def low_surrogate_def)

text \<open>
  C10. Snapshot integrity. After any history of calls on a fresh store, every row of
  \<^verbatim>\<open>file_snapshots\<close> carries as \<open>content_hash\<close> the SHA-256 hex digest of the UTF-8
  encoding of its stored content, and as \<open>size\<close> the length in bytes of that encoding.
\<close>

theorem C10_snapshot_fingerprint:
  "\<forall>r\<in>set (file_snapshots (history lib fk calls)).
     snap_content_hash r = sha256_hex lib (utf8 (snap_content r)) \<and>
     snap_size r = length (utf8 (snap_content r))"
proof -
  have "snapshots_inv lib (history lib fk calls)"
    by (simp add: history_def snapshots_inv_foldl snapshots_inv_init)
  then show ?thesis by (simp add: snapshots_inv_def list_all_iff)
qed

theorem C10_snapshot_fingerprint_witness:
  "map snap_content (file_snapshots (history example_lib True reconstruction_calls)) = [js ''x''] \<and>
   map snap_content_hash (file_snapshots (history example_lib True reconstruction_calls))
     = [sha256_hex example_lib (utf8 (js ''x''))] \<and>
   map snap_size (file_snapshots (history example_lib True reconstruction_calls))
     = [length (utf8 (js ''x''))] \<and>
   length (utf8 (js ''x'')) = 1 \<and>
   map snap_content (file_snapshots (history example_lib True lone_surrogate_calls))
     = [[0xFFFD]] \<and>
   map snap_content_hash (file_snapshots (history example_lib True lone_surrogate_calls))
     = [sha256_hex example_lib (utf8 [0xFFFD])] \<and>
   map snap_size (file_snapshots (history example_lib True lone_surrogate_calls)) = [3] \<and>
   utf8 [0xFFFD] = [0xEF, 0xBF, 0xBD]"
  using C10_snapshot_fingerprint [of example_lib True reconstruction_calls]
        C10_snapshot_fingerprint [of example_lib True lone_surrogate_calls]
  by (simp add: reconstruction_db lone_surrogate_db js_def high_surrogate_def
        low_surrogate_def utf8_unit_def)

text \<open>
  C5, as stated, fails. The JSON-file store takes content of 50001 code units without
  any error and keeps its first 50000.
\<close>

theorem C5_truncation_counterexample:
  "fd_addFileSnapshot Map.empty 1000 ''a.js'' (replicate 50001 0x78)
   = Inr [''a.js'' \<mapsto>
            \<lparr>fd_snapshots =
               [\<lparr>fds_timestamp = 1000, fds_content = replicate 50000 0x78,
                 fds_size = 50001, fds_lines = 1\<rparr>],
             fd_changes = 1\<rparr>] \<and>
   length (replicate 50000 (0x78 :: 16 word)) < length (replicate 50001 (0x78 :: 16 word))"
  by (simp add: fd_addFileSnapshot_def Object_prototype_members_def line_count_def
        count_list_replicate)

text \<open>
  C5, amended. No store raises an error for large content. The JSON-file store, for
  a path that has an entry already or is not the name of a member of
  \<^verbatim>\<open>Object.prototype\<close>, keeps the first 50000 code units of whatever it is given and
  records the full length as \<open>size\<close>; for a path without an entry that is such a
  name it throws a \<^verbatim>\<open>TypeError\<close>, whatever the length, and stores nothing. The
  SQLite store keeps content of any length in full: the row holds the content with
  each unpaired surrogate replaced by U+FFFD, of the same length, and so exactly the
  given content when that has no surrogate code unit. The recorder is the gate. A
  file of more than 100000 bytes it ignores altogether: no event, no snapshot,
  nothing reported. For any other file that passes the extension check it appends the
  event, and it stores a snapshot, holding the full text in the same way, only when
  the text has fewer than 100000 code units; otherwise it stores no snapshot and
  reports nothing.
\<close>

theorem C5_size_limits:
  "((files p = None \<longrightarrow> p \<notin> set Object_prototype_members) \<longrightarrow>
      (\<exists>files' e. fd_addFileSnapshot files now p content = Inr files' \<and>
         files' p = Some e \<and>
         fd_snapshots e =
           (case files p of None \<Rightarrow> [] | Some e0 \<Rightarrow> fd_snapshots e0) @
           [\<lparr>fds_timestamp = now, fds_content = take 50000 content,
             fds_size = length content, fds_lines = line_count content\<rparr>])) \<and>
   (files p = None \<and> p \<in> set Object_prototype_members \<longrightarrow>
      fd_addFileSnapshot files now p content = Inl TypeError) \<and>
   (fk_ok db sid \<longrightarrow>
      (\<exists>db' r. addFileSnapshot lib db now sid p (JSString content) = Inr (db', r) \<and>
         map snap_content (file_snapshots db') =
           map snap_content (file_snapshots db) @ [toWellFormed content])) \<and>
   length (toWellFormed content) = length content \<and>
   (list_all (\<lambda>u. \<not> high_surrogate u \<and> \<not> low_surrogate u) content \<longrightarrow>
      toWellFormed content = content) \<and>
   (100000 < stat_size f \<longrightarrow>
      handleFileChange lib db now_event now_snapshot sid (Some f) ext p = db) \<and>
   (100000 \<le> length (file_text f) \<longrightarrow>
      file_snapshots (handleFileChange lib db now_event now_snapshot sid (Some f) ext p) =
        file_snapshots db) \<and>
   (stat_size f \<le> 100000 \<and> (ext \<in> set textExtensions \<or> ext = []) \<and> fk_ok db sid \<longrightarrow>
      map ev_source
        (events (handleFileChange lib db now_event now_snapshot sid (Some f) ext p)) =
        map ev_source (events db) @ [p] \<and>
      (length (file_text f) < 100000 \<longrightarrow>
         map snap_content
           (file_snapshots
              (handleFileChange lib db now_event now_snapshot sid (Some f) ext p)) =
           map snap_content (file_snapshots db) @ [toWellFormed (file_text f)]))"
proof (intro conjI impI)
  assume "files p = None \<longrightarrow> p \<notin> set Object_prototype_members"
  then show "\<exists>files' e. fd_addFileSnapshot files now p content = Inr files' \<and>
         files' p = Some e \<and>
         fd_snapshots e =
           (case files p of None \<Rightarrow> [] | Some e0 \<Rightarrow> fd_snapshots e0) @
           [\<lparr>fds_timestamp = now, fds_content = take 50000 content,
             fds_size = length content, fds_lines = line_count content\<rparr>]"
    by (cases "files p") (simp_all add: fd_addFileSnapshot_def)
next
  assume "files p = None \<and> p \<in> set Object_prototype_members"
  then show "fd_addFileSnapshot files now p content = Inl TypeError"
    by (simp add: fd_addFileSnapshot_def)
next
  assume "fk_ok db sid"
  then show "\<exists>db' r. addFileSnapshot lib db now sid p (JSString content) = Inr (db', r) \<and>
         map snap_content (file_snapshots db') =
           map snap_content (file_snapshots db) @ [toWellFormed content]"
    by (simp add: addFileSnapshot_def Let_def)
next
  show "length (toWellFormed content) = length content" by (rule length_toWellFormed)
next
  assume "list_all (\<lambda>u. \<not> high_surrogate u \<and> \<not> low_surrogate u) content"
  then show "toWellFormed content = content" by (rule toWellFormed_no_surrogates)
next
  assume "100000 < stat_size f"
  then show "handleFileChange lib db now_event now_snapshot sid (Some f) ext p = db"
    by (simp add: handleFileChange_def)
next
  assume "100000 \<le> length (file_text f)"
  then show "file_snapshots (handleFileChange lib db now_event now_snapshot sid (Some f) ext p) =
        file_snapshots db"
    by (auto simp: handleFileChange_def addEvent_def Let_def split: sum.splits if_splits)
next
  assume a: "stat_size f \<le> 100000 \<and> (ext \<in> set textExtensions \<or> ext = []) \<and> fk_ok db sid"
  let ?ev = "\<lparr>ev_id = events_seq db + 1, ev_session_id = sid, ev_timestamp = now_event,
               ev_type = ''file_edit'', ev_source = p,
               ev_data = [(''action'', JStr ''change''),
                          (''size'', JNum (int (length (file_text f)))),
                          (''lines'', JNum (int (line_count (file_text f))))],
               ev_sequence = 0\<rparr>"
  let ?db1 = "db\<lparr>events := events db @ [?ev], events_seq := events_seq db + 1\<rparr>"
  from a have ev: "addEvent db now_event sid ''file_edit'' p
      [(''action'', JStr ''change''), (''size'', JNum (int (length (file_text f)))),
       (''lines'', JNum (int (line_count (file_text f))))] None
      = Inr (?db1, \<lparr>res_id = events_seq db + 1, res_changes = 1\<rparr>)"
    by (simp add: addEvent_def Let_def)
  from a have ok1: "fk_ok ?db1 sid" by (auto simp: fk_ok_def)
  then obtain db2 r2 where
    snap: "addFileSnapshot lib ?db1 now_snapshot sid p (JSString (file_text f)) = Inr (db2, r2)"
    and content: "map snap_content (file_snapshots db2) =
                    map snap_content (file_snapshots ?db1) @ [toWellFormed (file_text f)]"
    and evs2: "events db2 = events ?db1"
    by (simp add: addFileSnapshot_def Let_def)
  from a have gate: "\<not> 100000 < stat_size f" "ext \<in> set textExtensions \<or> ext = []"
    by auto
  have result: "handleFileChange lib db now_event now_snapshot sid (Some f) ext p =
                  (if length (file_text f) < 100000 then db2 else ?db1)"
    using gate ev snap by (auto simp: handleFileChange_def Let_def)
  show "map ev_source
        (events (handleFileChange lib db now_event now_snapshot sid (Some f) ext p)) =
        map ev_source (events db) @ [p]"
    using result evs2 by simp
  show "map snap_content
           (file_snapshots
              (handleFileChange lib db now_event now_snapshot sid (Some f) ext p)) =
           map snap_content (file_snapshots db) @ [toWellFormed (file_text f)]"
    if "length (file_text f) < 100000"
    using result content that by simp
qed

lemma toWellFormed_replicate_x:
  "toWellFormed (replicate n 0x78) = replicate n 0x78"
  by (rule toWellFormed_no_surrogates)
     (simp add: list_all_iff high_surrogate_def low_surrogate_def)

theorem C5_size_limits_witness:
  "fk_ok (history example_lib True open_session_calls) 1 \<and>
   fd_addFileSnapshot Map.empty 1000 ''constructor'' (js ''x'') = Inl TypeError \<and>
   (\<exists>files' e. fd_addFileSnapshot Map.empty 1000 ''a.js'' (replicate 50001 0x78) = Inr files' \<and>
        files' ''a.js'' = Some e \<and>
        map fds_content (fd_snapshots e) = [replicate 50000 0x78] \<and>
        map fds_size (fd_snapshots e) = [50001]) \<and>
   handleFileChange example_lib (history example_lib True open_session_calls) 3000 3001 1
     (Some \<lparr>stat_size = 100001, file_text = replicate 100001 0x78\<rparr>) ''.js'' ''huge.js''
     = history example_lib True open_session_calls \<and>
   file_snapshots
     (handleFileChange example_lib (history example_lib True open_session_calls) 3000 3001 1
        (Some \<lparr>stat_size = 100000, file_text = replicate 100000 0x78\<rparr>) ''.js'' ''big.js'')
     = [] \<and>
   map ev_source (events
     (handleFileChange example_lib (history example_lib True open_session_calls) 3000 3001 1
        (Some \<lparr>stat_size = 100000, file_text = replicate 100000 0x78\<rparr>) ''.js'' ''big.js''))
     = [''big.js''] \<and>
   map snap_content (file_snapshots
     (handleFileChange example_lib (history example_lib True open_session_calls) 3000 3001 1
        (Some \<lparr>stat_size = 5, file_text = js ''hello''\<rparr>) ''.js'' ''a.js''))
     = [js ''hello''] \<and>
   (\<exists>db' r. addFileSnapshot example_lib (history example_lib True open_session_calls) 3000 1
               ''big.js'' (JSString (replicate 100001 0x78)) = Inr (db', r) \<and>
            map snap_content (file_snapshots db') = [replicate 100001 0x78]) \<and>
   (\<exists>db' r. addFileSnapshot example_lib (history example_lib True open_session_calls) 3000 1
               ''a.js'' (JSString [0xD800, 0x78]) = Inr (db', r) \<and>
            map snap_content (file_snapshots db') = [[0xFFFD, 0x78]])"
  using C5_size_limits [where files = Map.empty and now = 1000 and p = "''constructor''"
          and content = "js ''x''"
          and db = "history example_lib True open_session_calls" and sid = 1
          and lib = example_lib
          and f = "\<lparr>stat_size = 100001, file_text = replicate 100001 0x78\<rparr>"
          and now_event = 3000 and now_snapshot = 3001 and ext = "''.js''"]
        C5_size_limits [where files = Map.empty and now = 1000 and p = "''a.js''"
          and content = "replicate 50001 0x78"
          and db = "history example_lib True open_session_calls" and sid = 1
          and lib = example_lib
          and f = "\<lparr>stat_size = 5, file_text = js ''hello''\<rparr>"
          and now_event = 3000 and now_snapshot = 3001 and ext = "''.js''"]
        C5_size_limits [where files = Map.empty and now = 3000 and p = "''big.js''"
          and content = "replicate 100001 0x78"
          and db = "history example_lib True open_session_calls" and sid = 1
          and lib = example_lib
          and f = "\<lparr>stat_size = 100000, file_text = replicate 100000 0x78\<rparr>"
          and now_event = 3000 and now_snapshot = 3001 and ext = "''.js''"]
        C5_size_limits [where files = Map.empty and now = 3000 and p = "''a.js''"
          and content = "[0xD800, 0x78]"
          and db = "history example_lib True open_session_calls" and sid = 1
          and lib = example_lib
          and f = "\<lparr>stat_size = 100001, file_text = replicate 100001 0x78\<rparr>"
          and now_event = 3000 and now_snapshot = 3001 and ext = "''.js''"]
  by (simp add: open_session_db fk_ok_def handleFileChange_def addEvent_def
        addFileSnapshot_def fd_addFileSnapshot_def Object_prototype_members_def
        textExtensions_def js_def high_surrogate_def low_surrogate_def
        toWellFormed_replicate_x Let_def)

section \<open>Playback\<close>

lemma late_event_db:
  "history lib fk late_event_calls =
     \<lparr>sessions =
        [\<lparr>sess_id = 1, sess_start_time = 1000, sess_end_time = Some 1050,
          sess_project_path = ''/proj'', sess_git_branch = None, sess_git_commit = None\<rparr>],
      sessions_seq = 1,
      events =
        [\<lparr>ev_id = 1, ev_session_id = 1, ev_timestamp = 1030, ev_type = ''file_edit'',
          ev_source = ''a.js'', ev_data = [(''action'', JStr ''change'')],
          ev_sequence = 0\<rparr>],
      events_seq = 1, file_snapshots = [], file_snapshots_seq = 0, diffs = [],
      diffs_seq = 0, foreign_keys = fk\<rparr>"
  by (simp add: late_event_calls_def store_defs)

lemma two_event_db:
  "history lib fk two_event_calls =
     \<lparr>sessions =
        [\<lparr>sess_id = 1, sess_start_time = 1000, sess_end_time = Some 2000,
          sess_project_path = ''/proj'', sess_git_branch = None, sess_git_commit = None\<rparr>],
      sessions_seq = 1,
      events =
        [\<lparr>ev_id = 1, ev_session_id = 1, ev_timestamp = 1000, ev_type = ''file_edit'',
          ev_source = ''a.js'', ev_data = [(''action'', JStr ''add'')], ev_sequence = 0\<rparr>,
         \<lparr>ev_id = 2, ev_session_id = 1, ev_timestamp = 1500, ev_type = ''file_edit'',
          ev_source = ''b.js'', ev_data = [(''action'', JStr ''add'')], ev_sequence = 0\<rparr>],
      events_seq = 2, file_snapshots = [], file_snapshots_seq = 0, diffs = [],
      diffs_seq = 0, foreign_keys = fk\<rparr>"
  by (simp add: two_event_calls_def store_defs)

text \<open>
  C4. Playback from \<open>fromTs\<close> should send every event of \<open>[fromTs, sessionEnd]\<close> once,
  in order, and then the completion signal. In the session that ends at 1050 the
  edit at 1030 is in the range played from 1000, yet the first firing of the interval
  finds it not yet due at clock 1000, advances the clock to 1100, past the end, and
  completes: the only message sent is the completion signal.
\<close>

theorem C4_playback_drops_last_events:
  "getEventsInRange (history lib fk late_event_calls) 1 1000 1050 =
     [\<lparr>ev_id = 1, ev_session_id = 1, ev_timestamp = 1030, ev_type = ''file_edit'',
       ev_source = ''a.js'', ev_data = [(''action'', JStr ''change'')], ev_sequence = 0\<rparr>] \<and>
   tick 0 (handlePlay (history lib fk late_event_calls) now new_connection 1000 (Some 1)) =
     \<lparr>timers = Map.empty, next_timer = 1, playInterval = Some 0,
      sent = [Playback_complete]\<rparr>"
  by (simp add: late_event_db getEventsInRange_def handlePlay_def tick_def
        new_connection_def Let_def)

text \<open>
  C8, as stated, fails. Play from 1000; the interval fires once and sends the edit
  at 1000; pause; play again with the start time the client sends, still 1000. The
  next firing sends the edit at 1000 a second time.
\<close>

theorem C8_pause_resume_counterexample:
  "sent (tick 1
     (handlePlay (history example_lib True two_event_calls) 9000
        (handlePause
           (tick 0
              (handlePlay (history example_lib True two_event_calls) 9000
                 new_connection 1000 (Some 1))))
        1000 (Some 1)))
   = [Event_msg \<lparr>ev_id = 1, ev_session_id = 1, ev_timestamp = 1000, ev_type = ''file_edit'',
                 ev_source = ''a.js'', ev_data = [(''action'', JStr ''add'')],
                 ev_sequence = 0\<rparr>,
      Event_msg \<lparr>ev_id = 1, ev_session_id = 1, ev_timestamp = 1000, ev_type = ''file_edit'',
                 ev_source = ''a.js'', ev_data = [(''action'', JStr ''add'')],
                 ev_sequence = 0\<rparr>]"
  by (simp add: two_event_db getEventsInRange_def handlePlay_def handlePause_def tick_def
        new_connection_def Let_def)

text \<open>
  C8, amended. Pause clears the interval recorded on the connection and forgets it:
  nothing is sent, and a later firing of that interval does nothing, so the playback
  emits no more. Its cursor goes with it. Pause with no interval recorded changes
  nothing. A play after the pause starts a new playback from the start time and speed
  of its own message, at event index 0 of the range it queries, whatever had been
  sent before the pause.
\<close>

theorem C8_pause_stops_and_play_restarts:
  "(playInterval ws = Some i \<longrightarrow>
      timers (handlePause ws) i = None \<and>
      playInterval (handlePause ws) = None \<and>
      sent (handlePause ws) = sent ws \<and>
      tick i (handlePause ws) = handlePause ws) \<and>
   (playInterval ws = None \<longrightarrow> handlePause ws = ws) \<and>
   (latest_by sess_id (sessions db) = Some s \<longrightarrow>
      timers (handlePlay db now (handlePause ws) startTime speed) (next_timer ws) =
        Some \<lparr>pb_events =
                 getEventsInRange db (sess_id s) startTime
                   (case sess_end_time s of
                      None \<Rightarrow> now | Some e \<Rightarrow> if e = 0 then now else e),
               pb_endTime =
                 (case sess_end_time s of
                    None \<Rightarrow> now | Some e \<Rightarrow> if e = 0 then now else e),
               pb_speed = (case speed of None \<Rightarrow> 1 | Some v \<Rightarrow> v),
               pb_currentTime = of_int startTime,
               pb_eventIndex = 0\<rparr> \<and>
      playInterval (handlePlay db now (handlePause ws) startTime speed) =
        Some (next_timer ws) \<and>
      sent (handlePlay db now (handlePause ws) startTime speed) = sent ws)"
proof (intro conjI impI)
  assume "playInterval ws = Some i"
  then show "timers (handlePause ws) i = None" "playInterval (handlePause ws) = None"
    "sent (handlePause ws) = sent ws" "tick i (handlePause ws) = handlePause ws"
    by (simp_all add: handlePause_def tick_def)
next
  assume "playInterval ws = None"
  then show "handlePause ws = ws" by (simp add: handlePause_def)
next
  assume s: "latest_by sess_id (sessions db) = Some s"
  have nt: "next_timer (handlePause ws) = next_timer ws"
    and st: "sent (handlePause ws) = sent ws"
    by (simp_all add: handlePause_def split: option.splits)
  show "timers (handlePlay db now (handlePause ws) startTime speed) (next_timer ws) =
        Some \<lparr>pb_events =
                 getEventsInRange db (sess_id s) startTime
                   (case sess_end_time s of
                      None \<Rightarrow> now | Some e \<Rightarrow> if e = 0 then now else e),
               pb_endTime =
                 (case sess_end_time s of
                    None \<Rightarrow> now | Some e \<Rightarrow> if e = 0 then now else e),
               pb_speed = (case speed of None \<Rightarrow> 1 | Some v \<Rightarrow> v),
               pb_currentTime = of_int startTime,
               pb_eventIndex = 0\<rparr>"
    using s nt by (simp add: handlePlay_def Let_def)
  show "playInterval (handlePlay db now (handlePause ws) startTime speed) =
        Some (next_timer ws)"
    using s nt by (simp add: handlePlay_def Let_def)
  show "sent (handlePlay db now (handlePause ws) startTime speed) = sent ws"
    using s st by (simp add: handlePlay_def Let_def)
qed

theorem C8_pause_stops_and_play_restarts_witness:
  "playInterval (tick 0 (handlePlay (history example_lib True two_event_calls) 9000
                           new_connection 1000 (Some 1))) = Some 0 \<and>
   map_option pb_eventIndex
     (timers (tick 0 (handlePlay (history example_lib True two_event_calls) 9000
                        new_connection 1000 (Some 1))) 0) = Some 1 \<and>
   playInterval new_connection = None \<and>
   map_option sess_id (latest_by sess_id (sessions (history example_lib True two_event_calls)))
     = Some 1 \<and>
   timers (handlePause (tick 0 (handlePlay (history example_lib True two_event_calls) 9000
                                  new_connection 1000 (Some 1)))) 0 = None \<and>
   map_option pb_eventIndex
     (timers (handlePlay (history example_lib True two_event_calls) 9000
                (handlePause (tick 0 (handlePlay (history example_lib True two_event_calls)
                                        9000 new_connection 1000 (Some 1))))
                1000 (Some 1)) 1) = Some 0 \<and>
   handlePause new_connection = new_connection"
  using C8_pause_stops_and_play_restarts
          [of "tick 0 (handlePlay (history example_lib True two_event_calls) 9000
                         new_connection 1000 (Some 1))" 0
              "history example_lib True two_event_calls"
              "\<lparr>sess_id = 1, sess_start_time = 1000, sess_end_time = Some 2000,
                sess_project_path = ''/proj'', sess_git_branch = None,
                sess_git_commit = None\<rparr>" 9000 1000 "Some 1"]
        C8_pause_stops_and_play_restarts
          [of new_connection 0 "history example_lib True two_event_calls"
              "\<lparr>sess_id = 1, sess_start_time = 1000, sess_end_time = Some 2000,
                sess_project_path = ''/proj'', sess_git_branch = None,
                sess_git_commit = None\<rparr>" 9000 1000 "Some 1"]
  by (simp add: two_event_db getEventsInRange_def handlePlay_def handlePause_def tick_def
        new_connection_def Let_def)

subsection \<open>What a single playback does send\<close>

lemma send_due_prefix:
  "i \<le> length evs \<Longrightarrow>
   send_due evs c i (pre @ map Event_msg (take i evs)) = (j, out) \<Longrightarrow>
   i \<le> j \<and> j \<le> length evs \<and> out = pre @ map Event_msg (take j evs)"
proof (induction evs c i "pre @ map Event_msg (take i evs)" arbitrary: j out
       rule: send_due.induct)
  case (1 evs c i)
  show ?case
  proof (cases "i < length evs \<and> of_int (ev_timestamp (evs ! i)) \<le> c")
    case True
    then have lt: "i < length evs" by simp
    have app: "(pre @ map Event_msg (take i evs)) @ [Event_msg (evs ! i)] =
               pre @ map Event_msg (take (Suc i) evs)"
      using lt by (simp add: take_Suc_conv_app_nth)
    have step: "send_due evs c (Suc i) (pre @ map Event_msg (take (Suc i) evs)) = (j, out)"
      using "1.prems"(2) True app by (simp del: send_due.simps add: send_due.simps [of evs c i])
    have "Suc i \<le> j \<and> j \<le> length evs \<and> out = pre @ map Event_msg (take j evs)"
      using "1.hyps" [OF True app _ step] lt by simp
    then show ?thesis by simp
  next
    case False
    then have "send_due evs c i (pre @ map Event_msg (take i evs)) =
                 (i, pre @ map Event_msg (take i evs))"
      by (subst send_due.simps) (simp only: if_False)
    with "1.prems" show ?thesis by simp
  qed
qed

lemma playback_inv_tick:
  assumes "playback_inv evs pre i ws"
  shows "playback_inv evs pre i (tick i ws)"
proof (cases "timers ws i")
  case None
  then show ?thesis using assms by (simp add: tick_def)
next
  case (Some pb)
  with assms have ev: "pb_events pb = evs" and le: "pb_eventIndex pb \<le> length evs"
    and st: "sent ws = pre @ map Event_msg (take (pb_eventIndex pb) evs)"
    by (simp_all add: playback_inv_def)
  obtain j out where sd:
    "send_due evs (pb_currentTime pb) (pb_eventIndex pb) (sent ws) = (j, out)"
    by (cases "send_due evs (pb_currentTime pb) (pb_eventIndex pb) (sent ws)")
  from send_due_prefix [OF le sd [unfolded st]]
  have j: "j \<le> length evs" and out: "out = pre @ map Event_msg (take j evs)" by simp_all
  show ?thesis
    using Some ev sd j out
    by (auto simp: playback_inv_def tick_def Let_def simp del: send_due.simps)
qed

lemma playback_inv_ticks:
  "playback_inv evs pre i ws \<Longrightarrow> playback_inv evs pre i ((tick i ^^ n) ws)"
  by (induction n) (simp_all add: playback_inv_tick)

text \<open>
  X1. A single playback sends a prefix of its range, in order. After \<open>handlePlay\<close>
  and any number of firings of the new interval, what has been sent since is the list
  of the first \<open>k\<close> events of \<open>getEventsInRange\<close> for the played range, for some \<open>k\<close>,
  each once and in the order of the query, followed by the completion signal exactly
  when the interval has been cleared.
\<close>

theorem playback_sends_prefix_in_order:
  assumes "latest_by sess_id (sessions db) = Some s"
  shows "\<exists>k\<le>length (getEventsInRange db (sess_id s) startTime
                       (case sess_end_time s of
                          None \<Rightarrow> now | Some e \<Rightarrow> if e = 0 then now else e)).
           sent ((tick (next_timer ws) ^^ n) (handlePlay db now ws startTime speed)) =
             sent ws @
             map Event_msg
               (take k (getEventsInRange db (sess_id s) startTime
                          (case sess_end_time s of
                             None \<Rightarrow> now | Some e \<Rightarrow> if e = 0 then now else e))) @
             (if timers ((tick (next_timer ws) ^^ n) (handlePlay db now ws startTime speed))
                   (next_timer ws) = None
              then [Playback_complete] else [])"
proof -
  let ?endT = "case sess_end_time s of None \<Rightarrow> now | Some e \<Rightarrow> if e = 0 then now else e"
  let ?evs = "getEventsInRange db (sess_id s) startTime ?endT"
  let ?i = "next_timer ws"
  let ?ws0 = "handlePlay db now ws startTime speed"
  have "playback_inv ?evs (sent ws) ?i ?ws0"
    using assms by (simp add: playback_inv_def handlePlay_def Let_def)
  then have inv: "playback_inv ?evs (sent ws) ?i ((tick ?i ^^ n) ?ws0)"
    by (rule playback_inv_ticks)
  show ?thesis
  proof (cases "timers ((tick ?i ^^ n) ?ws0) ?i")
    case None
    with inv show ?thesis by (simp add: playback_inv_def)
  next
    case (Some pb)
    with inv show ?thesis by (auto simp: playback_inv_def)
  qed
qed

theorem playback_sends_prefix_in_order_witness:
  "map_option sess_id (latest_by sess_id (sessions (history example_lib True two_event_calls)))
     = Some 1 \<and>
   sent ((tick 0 ^^ 2) (handlePlay (history example_lib True two_event_calls) 9000
                          new_connection 1000 (Some 1)))
   = [Event_msg \<lparr>ev_id = 1, ev_session_id = 1, ev_timestamp = 1000, ev_type = ''file_edit'',
                 ev_source = ''a.js'', ev_data = [(''action'', JStr ''add'')],
                 ev_sequence = 0\<rparr>]"
  using playback_sends_prefix_in_order
          [where db = "history example_lib True two_event_calls"
             and s = "\<lparr>sess_id = 1, sess_start_time = 1000, sess_end_time = Some 2000,
                sess_project_path = ''/proj'', sess_git_branch = None,
                sess_git_commit = None\<rparr>"
             and startTime = 1000 and now = 9000 and ws = new_connection and n = 2
             and speed = "Some 1"]
  by (simp add: two_event_db getEventsInRange_def handlePlay_def tick_def
        new_connection_def Let_def numeral_2_eq_2)

end
